theory Spec2Isabelle
  imports Main "HOL-Library.AList" "HOL-Library.Product_Lexorder"
begin

section \<open>Python strings\<close>

text \<open>
  A Python \<open>str\<close> is modelled as a \<open>string\<close>, one \<open>char\<close> per code point, for the
  code points below 256.  \<open>py_isspace\<close> is \<open>str.isspace\<close> on one such code point: the
  ASCII controls 9 to 13 and 28 to 31, the space, and the Latin-1 code points 133 and 160.
\<close>

definition py_isspace :: "char \<Rightarrow> bool" where
  "py_isspace c = ((of_char c :: int) \<in> set [9, 10, 11, 12, 13, 28, 29, 30, 31, 32, 133, 160])"

text \<open>\<open>s.strip()\<close>: leading and trailing whitespace removed.\<close>

definition strip :: "string \<Rightarrow> string" where
  "strip s = rev (dropWhile py_isspace (rev (dropWhile py_isspace s)))"

definition digit_char :: "int \<Rightarrow> char" where
  "digit_char d = char_of (48 + d)"

text \<open>
  \<open>str(n)\<close> for an integer: the decimal digits of its absolute value, after a minus sign
  when it is negative.  \<open>str_digits\<close> prints a number that is not negative.
\<close>

function str_digits :: "int \<Rightarrow> string" where
  "str_digits n = (if n < 10 then [digit_char n] else str_digits (n div 10) @ [digit_char (n mod 10)])"
  by pat_completeness auto
termination
  by (relation "measure nat") auto

declare str_digits.simps [simp del]

definition str_int :: "int \<Rightarrow> string" where
  "str_int i = (if i < 0 then CHR ''-'' # str_digits (- i) else str_digits i)"

definition is_digit :: "char \<Rightarrow> bool" where
  "is_digit c = (48 \<le> (of_char c :: int) \<and> (of_char c :: int) \<le> 57)"

definition digit_val :: "char \<Rightarrow> int" where
  "digit_val c = of_char c - 48"

datatype py_error =
  ValueError | TypeError | KeyError | InvalidId | DuplicateKeyError | OperationFailure

text \<open>
  \<open>int(s)\<close> for a string, base 10: surrounding whitespace is dropped, one sign is allowed,
  then digits, where a single underscore may stand between two digits.  Anything else is a
  \<open>ValueError\<close>.  (The limit on the number of digits that recent interpreters add is not
  modelled; it is a \<open>ValueError\<close> too.)
\<close>

fun py_digits :: "string \<Rightarrow> int \<Rightarrow> int option" where
  "py_digits [] acc = Some acc"
| "py_digits (c # cs) acc =
     (if is_digit c then py_digits cs (10 * acc + digit_val c)
      else if c = CHR ''_'' \<and> cs \<noteq> [] \<and> is_digit (hd cs) then py_digits cs acc
      else None)"

definition py_unsigned :: "string \<Rightarrow> int option" where
  "py_unsigned s = (case s of [] \<Rightarrow> None | c # cs \<Rightarrow> if is_digit c then py_digits s 0 else None)"

definition py_int :: "string \<Rightarrow> py_error + int" where
  "py_int s =
     (case strip s of
        [] \<Rightarrow> Inl ValueError
      | c # cs \<Rightarrow>
          if c = CHR ''-'' then
            (case py_unsigned cs of None \<Rightarrow> Inl ValueError | Some n \<Rightarrow> Inr (- n))
          else if c = CHR ''+'' then
            (case py_unsigned cs of None \<Rightarrow> Inl ValueError | Some n \<Rightarrow> Inr n)
          else
            (case py_unsigned (c # cs) of None \<Rightarrow> Inl ValueError | Some n \<Rightarrow> Inr n))"

section \<open>Documents, the store and the session\<close>

text \<open>
  \<open>datetime\<close> as the fields of a naive \<open>datetime.datetime\<close>; two of them compare
  field by field, the year first.
\<close>

record datetime =
  year :: int
  month :: int
  day :: int
  hour :: int
  minute :: int
  second :: int
  microsecond :: int

definition dt_key :: "datetime \<Rightarrow> int \<times> int \<times> int \<times> int \<times> int \<times> int \<times> int" where
  "dt_key d = (year d, month d, day d, hour d, minute d, second d, microsecond d)"

definition zfill :: "nat \<Rightarrow> string \<Rightarrow> string" where
  "zfill w s = replicate (w - length s) (CHR ''0'') @ s"

text \<open>
  \<open>d.isoformat(sep)\<close>: the microseconds are printed only when they are not zero.
  \<open>d.isoformat()\<close> separates date and time by \<open>T\<close>, and \<open>str(d)\<close> by a space.
\<close>

definition isoformat_sep :: "char \<Rightarrow> datetime \<Rightarrow> string" where
  "isoformat_sep sep d =
     zfill 4 (str_int (year d)) @ ''-'' @ zfill 2 (str_int (month d)) @ ''-'' @
     zfill 2 (str_int (day d)) @ [sep] @ zfill 2 (str_int (hour d)) @ '':'' @
     zfill 2 (str_int (minute d)) @ '':'' @ zfill 2 (str_int (second d)) @
     (if microsecond d = 0 then [] else ''.'' @ zfill 6 (str_int (microsecond d)))"

definition isoformat :: "datetime \<Rightarrow> string" where
  "isoformat d = isoformat_sep (CHR ''T'') d"

text \<open>
  The values a document holds (floating-point numbers are left out).  A document (a Python \<open>dict\<close>, a BSON document) is an
  association list with distinct keys, in insertion order: \<open>map_of\<close> reads a key and
  \<open>AList.update\<close> assigns one, in place when the key is there and at the end otherwise.
\<close>

datatype bson =
    VNone
  | VBool bool
  | VInt int
  | VStr string
  | VDate datetime
  | VOid string
  | VList "bson list"
  | VDict "(string \<times> bson) list"

type_synonym doc = "(string \<times> bson) list"

text \<open>The truth value Python gives a value in \<open>if v\<close>.\<close>

fun truthy :: "bson \<Rightarrow> bool" where
  "truthy VNone = False"
| "truthy (VBool b) = b"
| "truthy (VInt i) = (i \<noteq> 0)"
| "truthy (VStr s) = (s \<noteq> [])"
| "truthy (VDate d) = True"
| "truthy (VOid h) = True"
| "truthy (VList xs) = (xs \<noteq> [])"
| "truthy (VDict kvs) = (kvs \<noteq> [])"

text \<open>\<open>int(v)\<close> on a stored value.\<close>

fun int_of_bson :: "bson \<Rightarrow> py_error + int" where
  "int_of_bson (VInt i) = Inr i"
| "int_of_bson (VBool b) = Inr (if b then 1 else 0)"
| "int_of_bson (VStr s) = py_int s"
| "int_of_bson v = Inl TypeError"

text \<open>
  \<open>ObjectId(s)\<close> for a string: 24 hexadecimal digits, kept in lower case (what \<open>str\<close> of
  the identifier prints); anything else raises \<open>InvalidId\<close>.
\<close>

definition is_hex :: "char \<Rightarrow> bool" where
  "is_hex c = (is_digit c \<or> c \<in> set ''abcdef'' \<or> c \<in> set ''ABCDEF'')"

definition hex_lower :: "char \<Rightarrow> char" where
  "hex_lower c = (if c \<in> set ''ABCDEF'' then char_of (of_char c + (32::nat)) else c)"

definition ObjectId :: "string \<Rightarrow> py_error + string" where
  "ObjectId s = (if length s = 24 \<and> list_all is_hex s then Inr (map hex_lower s) else Inl InvalidId)"

text \<open>
  \<open>doc_to_json\<close>: an empty document is returned as it is; otherwise the identifier becomes
  its string (\<open>str\<close> of an \<open>ObjectId\<close> is its hexadecimal text) and after that every
  top-level \<open>datetime\<close> its ISO text.  \<open>str\<close> of an identifier that is a list or an embedded
  document is not modelled: such an identifier is left as it is.
\<close>

definition str_id :: "bson \<Rightarrow> bson" where
  "str_id v =
     (case v of
        VOid h \<Rightarrow> VStr h
      | VStr s \<Rightarrow> VStr s
      | VInt i \<Rightarrow> VStr (str_int i)
      | VBool b \<Rightarrow> VStr (if b then ''True'' else ''False'')
      | VNone \<Rightarrow> VStr ''None''
      | VDate d \<Rightarrow> VStr (isoformat_sep (CHR '' '') d)
      | _ \<Rightarrow> v)"

definition json_value :: "string \<times> bson \<Rightarrow> string \<times> bson" where
  "json_value kv =
     (case kv of (k, v) \<Rightarrow>
        (if k = ''_id'' then (k, str_id v)
         else
           (case v of VDate d \<Rightarrow> (k, VStr (isoformat d)) | _ \<Rightarrow> (k, v))))"

definition doc_to_json :: "doc \<Rightarrow> doc" where
  "doc_to_json d = (if d = [] then d else map json_value d)"

text \<open>A flashed or rendered message: a fixed text, or a text followed by \<open>str(e)\<close>.\<close>

datatype message = Msg string | MsgExc string py_error

type_synonym form = "(string \<times> string) list"

text \<open>
  The state a request runs against: the session (the value under \<open>'admin'\<close>, when
  present, and the flashed messages), the three collections in insertion order, whether
  the unique index on \<open>event_name\<close> exists (\<open>init_db\<close> creates it, ignoring failures), and
  whether the database is failing, in which case every operation on it raises.
\<close>

record state =
  session_admin :: "bson option"
  flashes :: "(message \<times> string) list"
  events_collection :: "doc list"
  teams_collection :: "doc list"
  legacy_collection :: "doc list"
  event_name_unique :: bool
  db_fault :: bool

datatype http_method = GET | POST

text \<open>
  A request: method, form fields and query arguments (the first value of a key is the
  one \<open>get\<close> returns), and what the environment supplies while it is served: the clock
  \<open>datetime.utcnow()\<close> and the \<open>ObjectId\<close> the driver generates for an inserted document.
\<close>

record request =
  req_method :: http_method
  form :: form
  args :: form
  utcnow :: datetime
  new_oid :: string

datatype ctx =
    CDoc doc
  | CDocOpt "doc option"
  | CDocs "doc list"
  | CError message
  | CForm form
  | CBool bool

datatype response =
    Redirect string
  | Body string nat
  | Template string "(string \<times> ctx) list" nat
  | SendFile string string
  | SendWorkbook string "doc list"
  | Jsonify "(string \<times> int) list"
  | ServerError py_error

definition form_get :: "form \<Rightarrow> string \<Rightarrow> string \<Rightarrow> string" where
  "form_get f k d = (case map_of f k of None \<Rightarrow> d | Some v \<Rightarrow> v)"

definition flash :: "message \<Rightarrow> string \<Rightarrow> state \<Rightarrow> state" where
  "flash m category st = st\<lparr>flashes := flashes st @ [(m, category)]\<rparr>"

subsection \<open>Collection operations\<close>

definition has_id :: "bson \<Rightarrow> doc \<Rightarrow> bool" where
  "has_id oid d = (map_of d ''_id'' = Some oid)"

text \<open>\<open>find_one({"_id": oid})\<close>.\<close>

definition find_one :: "state \<Rightarrow> doc list \<Rightarrow> bson \<Rightarrow> py_error + doc option" where
  "find_one st coll oid = (if db_fault st then Inl OperationFailure else Inr (find (has_id oid) coll))"

text \<open>
  A write is refused with \<open>DuplicateKeyError\<close> when another document has the same
  value under a key with a unique index; \<open>_id\<close> always has one.
\<close>

definition clashes :: "string list \<Rightarrow> doc list \<Rightarrow> doc \<Rightarrow> bool" where
  "clashes keys coll d = (\<exists>e \<in> set coll. \<exists>k \<in> set keys. map_of e k = map_of d k)"

text \<open>\<open>insert_one(doc)\<close>: the driver adds a generated \<open>_id\<close> when the document has none.\<close>

definition insert_one ::
  "state \<Rightarrow> string list \<Rightarrow> doc list \<Rightarrow> doc \<Rightarrow> string \<Rightarrow> py_error + (bson \<times> doc list)" where
  "insert_one st uniq coll d fresh =
     (if db_fault st then Inl OperationFailure
      else
        (let inserted_id = (case map_of d ''_id'' of None \<Rightarrow> VOid fresh | Some v \<Rightarrow> v);
             d' = (case map_of d ''_id'' of None \<Rightarrow> d @ [(''_id'', VOid fresh)] | Some v \<Rightarrow> d)
         in if clashes (''_id'' # uniq) coll d' then Inl DuplicateKeyError
            else Inr (inserted_id, coll @ [d'])))"

text \<open>\<open>$set\<close>: each field of the update is assigned in the document.\<close>

definition set_fields :: "doc \<Rightarrow> doc \<Rightarrow> doc" where
  "set_fields upd d = foldl (\<lambda>acc kv. AList.update (fst kv) (snd kv) acc) d upd"

fun replace_first :: "('a \<Rightarrow> bool) \<Rightarrow> 'a \<Rightarrow> 'a list \<Rightarrow> 'a list" where
  "replace_first P y [] = []"
| "replace_first P y (x # xs) = (if P x then y # xs else x # replace_first P y xs)"

fun remove_first :: "('a \<Rightarrow> bool) \<Rightarrow> 'a list \<Rightarrow> 'a list" where
  "remove_first P [] = []"
| "remove_first P (x # xs) = (if P x then xs else x # remove_first P xs)"

text \<open>
  \<open>update_one({"_id": oid}, {"$set": upd})\<close>: the first document with that identifier is
  updated; the result is the number of documents matched.  The updates of this program
  never assign \<open>_id\<close>, so only the other unique keys can clash.
\<close>

definition update_one ::
  "state \<Rightarrow> string list \<Rightarrow> doc list \<Rightarrow> bson \<Rightarrow> doc \<Rightarrow> py_error + (nat \<times> doc list)" where
  "update_one st uniq coll oid upd =
     (if db_fault st then Inl OperationFailure
      else
        (case find (has_id oid) coll of
           None \<Rightarrow> Inr (0, coll)
         | Some d \<Rightarrow>
             let d' = set_fields upd d
             in if clashes uniq (remove_first (has_id oid) coll) d' then Inl DuplicateKeyError
                else Inr (1, replace_first (has_id oid) d' coll)))"

text \<open>
  \<open>find(...).sort("created_at", -1)\<close>: latest first.  A document whose \<open>created_at\<close> is not
  a date sorts as one without the key, after all dated ones; documents with equal keys
  keep the order of the collection.
\<close>

definition created_rank :: "doc \<Rightarrow> int \<times> int \<times> int \<times> int \<times> int \<times> int \<times> int \<times> int" where
  "created_rank d =
     (case map_of d ''created_at'' of
        Some (VDate t) \<Rightarrow> (1, dt_key t)
      | _ \<Rightarrow> (0, 0, 0, 0, 0, 0, 0, 0))"

fun insert_desc :: "doc \<Rightarrow> doc list \<Rightarrow> doc list" where
  "insert_desc d [] = [d]"
| "insert_desc d (x # xs) =
     (if created_rank x \<le> created_rank d then d # x # xs else x # insert_desc d xs)"

definition sort_created_desc :: "doc list \<Rightarrow> doc list" where
  "sort_created_desc xs = foldr insert_desc xs []"

definition find_sorted :: "state \<Rightarrow> (doc \<Rightarrow> bool) \<Rightarrow> doc list \<Rightarrow> py_error + doc list" where
  "find_sorted st flt coll =
     (if db_fault st then Inl OperationFailure else Inr (sort_created_desc (filter flt coll)))"

section \<open>Public routes\<close>

text \<open>\<open>choose_event\<close>: the active events, latest first; no events when the query fails.\<close>

definition choose_event :: "state \<Rightarrow> request \<Rightarrow> response \<times> state" where
  "choose_event st req =
     (let events =
        (case find_sorted st (\<lambda>d. map_of d ''active'' = Some (VBool True)) (events_collection st) of
           Inl e \<Rightarrow> []
         | Inr es \<Rightarrow> map doc_to_json es)
      in (Template ''choose_event.html'' [(''events'', CDocs events)] 200, st))"

text \<open>The form key \<open>f"member_{i}_<suffix>"\<close>.\<close>

definition member_key :: "int \<Rightarrow> string \<Rightarrow> string" where
  "member_key i suffix = ''member_'' @ str_int i @ ''_'' @ suffix"

text \<open>\<open>request.form.get(f"member_{i}_<suffix>", "").strip()\<close>.\<close>

definition member_field :: "form \<Rightarrow> int \<Rightarrow> string \<Rightarrow> string" where
  "member_field f i suffix = strip (form_get f (member_key i suffix) [])"

definition member_dict :: "string \<Rightarrow> string \<Rightarrow> string \<Rightarrow> bson" where
  "member_dict name email reg_no =
     VDict [(''name'', VStr name), (''email'', VStr email), (''reg_no'', VStr reg_no)]"

text \<open>
  The loop of \<open>team_register\<close> over \<open>range(1, max_members + 1)\<close>, given the positions still
  to visit and the members gathered so far.  It returns the members and
  \<open>missing_required\<close>; the \<open>break\<close> is the branch that does not recurse.
\<close>

fun gather_members :: "form \<Rightarrow> int \<Rightarrow> int list \<Rightarrow> bson list \<Rightarrow> bson list \<times> string option" where
  "gather_members f min_members [] members = (members, None)"
| "gather_members f min_members (i # rest) members =
     (let name = member_field f i ''name'';
          email = member_field f i ''email'';
          reg_no = member_field f i ''reg_no''
      in if i \<le> min_members \<and> (name = [] \<or> email = []) then
           (members, Some (''Member '' @ str_int i @ '' name and email are required.''))
         else
           gather_members f min_members rest
             (if name \<noteq> [] \<or> email \<noteq> [] \<or> reg_no \<noteq> [] \<or> i \<le> min_members
              then members @ [member_dict name email reg_no] else members))"

definition register_page :: "doc \<Rightarrow> message \<Rightarrow> form \<Rightarrow> nat \<Rightarrow> response" where
  "register_page event err f code =
     Template ''team_register.html''
       [(''event'', CDoc event), (''error'', CError err), (''form'', CForm f)] code"

text \<open>
  The \<open>try\<close> block that stores the registration: the document is inserted, read back by
  the identifier the insertion returned, and shown; an exception in either step is
  reported with status 500.
\<close>

definition store_registration :: "doc \<Rightarrow> doc \<Rightarrow> state \<Rightarrow> request \<Rightarrow> response \<times> state" where
  "store_registration event reg_doc st req =
     (case insert_one st [] (teams_collection st) reg_doc (new_oid req) of
        Inl e \<Rightarrow> (register_page event (MsgExc ''An error occurred: '' e) (form req) 500, st)
      | Inr (inserted_id, coll) \<Rightarrow>
          (let st' = st\<lparr>teams_collection := coll\<rparr>
           in (case find_one st' coll inserted_id of
                 Inl e \<Rightarrow>
                   (register_page event (MsgExc ''An error occurred: '' e) (form req) 500, st')
               | Inr inserted \<Rightarrow>
                   (Template ''download_info.html''
                      [(''data'', CDocOpt (map_option doc_to_json inserted))] 200, st'))))"

text \<open>
  The \<open>POST\<close> branch of \<open>team_register\<close>, for the event found.  An exception the handler
  does not catch (\<open>int\<close> of a stored value, a missing key of the event) ends the request
  with a server error and nothing written.
\<close>

definition team_register_post :: "doc \<Rightarrow> state \<Rightarrow> request \<Rightarrow> response \<times> state" where
  "team_register_post event st req =
     (let require_team_name =
            (case map_of event ''require_team_name'' of None \<Rightarrow> False | Some v \<Rightarrow> truthy v)
      in
      (case int_of_bson (case map_of event ''min_members'' of None \<Rightarrow> VInt 1 | Some v \<Rightarrow> v) of
         Inl e \<Rightarrow> (ServerError e, st)
       | Inr min_members \<Rightarrow>
      (case int_of_bson (case map_of event ''max_members'' of None \<Rightarrow> VInt 1 | Some v \<Rightarrow> v) of
         Inl e \<Rightarrow> (ServerError e, st)
       | Inr max_members \<Rightarrow>
      (case gather_members (form req) min_members [1..max_members] [] of
         (members, Some missing_required) \<Rightarrow>
           (register_page event (Msg missing_required) (form req) 400, st)
       | (members, None) \<Rightarrow>
           (let team_lead_name = strip (form_get (form req) ''team_lead_name'' []);
                team_lead_email = strip (form_get (form req) ''team_lead_email'' [])
            in
            if team_lead_name = [] \<or> team_lead_email = [] then
              (register_page event (Msg ''Team lead name and email are required.'') (form req) 400, st)
            else
              (let team_name_field =
                     (if require_team_name then VStr (strip (form_get (form req) ''team_name'' []))
                      else VNone)
               in
               if require_team_name \<and> \<not> truthy team_name_field then
                 (register_page event (Msg ''Team name is required for this event.'') (form req) 400, st)
               else
                 (case map_of event ''_id'' of
                    None \<Rightarrow> (ServerError KeyError, st)
                  | Some event_id \<Rightarrow>
                 (case map_of event ''event_name'' of
                    None \<Rightarrow> (ServerError KeyError, st)
                  | Some event_name \<Rightarrow>
                      store_registration event
                        [(''event_id'', event_id),
                         (''event_name'', event_name),
                         (''team_name'', team_name_field),
                         (''team_lead_name'', VStr team_lead_name),
                         (''team_lead_email'', VStr team_lead_email),
                         (''team_lead_phone'', VStr (strip (form_get (form req) ''team_lead_phone'' []))),
                         (''team_lead_reg_no'', VStr (strip (form_get (form req) ''team_lead_reg_no'' []))),
                         (''members'', VList members),
                         (''created_at'', VDate (utcnow req))]
                        st req))))))))"

text \<open>
  \<open>team_register(event_id)\<close>.  \<open>event_id\<close> is \<open>None\<close> on the route without an identifier.
  \<open>event_doc\<close> is the lookup of the event, where an invalid identifier and a failing
  query both give \<open>None\<close>.
\<close>

definition event_doc :: "state \<Rightarrow> string \<Rightarrow> doc option" where
  "event_doc st eid =
     (case ObjectId eid of
        Inl e \<Rightarrow> None
      | Inr oid \<Rightarrow>
          (case find_one st (events_collection st) (VOid oid) of
             Inl e \<Rightarrow> None
           | Inr r \<Rightarrow> r))"

definition team_register :: "string option \<Rightarrow> state \<Rightarrow> request \<Rightarrow> response \<times> state" where
  "team_register event_id st req =
     (case event_id of
        None \<Rightarrow> (Redirect ''choose_event'', st)
      | Some eid \<Rightarrow>
          (if eid = [] then (Redirect ''choose_event'', st)
           else
             (case event_doc st eid of
                None \<Rightarrow> (Body ''Invalid event'' 404, st)
              | Some d \<Rightarrow>
                  (if d = [] then (Body ''Invalid event'' 404, st)
                   else
                     (let event = doc_to_json d
                      in if req_method req = POST then team_register_post event st req
                         else (Template ''team_register.html'' [(''event'', CDoc event)] 200, st))))))"

section \<open>Admin session guard\<close>

text \<open>
  The decorator \<open>admin_required\<close>: without \<open>'admin'\<close> in the session the wrapped view is
  not called and the request is redirected to the login page.
\<close>

definition admin_required ::
  "(state \<Rightarrow> request \<Rightarrow> response \<times> state) \<Rightarrow> state \<Rightarrow> request \<Rightarrow> response \<times> state" where
  "admin_required f st req =
     (if session_admin st = None then (Redirect ''admin_login'', st) else f st req)"

text \<open>
  \<open>admin_login\<close>, given the configured user name and password (\<open>ADMIN_USER\<close>,
  \<open>ADMIN_PASS\<close> of the environment).
\<close>

definition admin_login :: "string \<Rightarrow> string \<Rightarrow> state \<Rightarrow> request \<Rightarrow> response \<times> state" where
  "admin_login ADMIN_USER ADMIN_PASS st req =
     (if req_method req = POST then
        (let username = form_get (form req) ''username'' [];
             password = form_get (form req) ''password'' []
         in if username = ADMIN_USER \<and> password = ADMIN_PASS then
              (Redirect ''admin_dashboard'', st\<lparr>session_admin := Some (VBool True)\<rparr>)
            else
              (Template ''admin_login.html''
                 [(''error'', CError (Msg ''Invalid credentials. Try again.''))] 200, st))
      else (Template ''admin_login.html'' [] 200, st))"

definition admin_dashboard :: "state \<Rightarrow> request \<Rightarrow> response \<times> state" where
  "admin_dashboard = admin_required (\<lambda>st req. (Template ''admin_dashboard.html'' [] 200, st))"

text \<open>\<open>logout\<close>: \<open>session.pop('admin', None)\<close>.\<close>

definition logout :: "state \<Rightarrow> request \<Rightarrow> response \<times> state" where
  "logout st req = (Redirect ''home'', st\<lparr>session_admin := None\<rparr>)"

section \<open>Admin: events\<close>

text \<open>
  The two \<open>try\<close> blocks that read the member limits, the same in \<open>admin_events\<close> and in
  \<open>admin_edit_event\<close>.  A missing field takes the default, which is an integer already;
  \<open>int\<close> of a string raises nothing but \<open>ValueError\<close>, which the blocks catch.
\<close>

definition member_limits :: "form \<Rightarrow> int \<times> int" where
  "member_limits f =
     (let min_members =
            (case map_of f ''min_members'' of
               None \<Rightarrow> max 1 1
             | Some s \<Rightarrow> (case py_int s of Inl e \<Rightarrow> 1 | Inr v \<Rightarrow> max 1 v));
          max_members =
            (case map_of f ''max_members'' of
               None \<Rightarrow> max min_members min_members
             | Some s \<Rightarrow> (case py_int s of Inl e \<Rightarrow> min_members | Inr v \<Rightarrow> max min_members v))
      in (min_members, max_members))"

definition event_indexes :: "state \<Rightarrow> string list" where
  "event_indexes st = (if event_name_unique st then [''event_name''] else [])"

definition admin_events_view :: "state \<Rightarrow> request \<Rightarrow> response \<times> state" where
  "admin_events_view st req =
     (if req_method req = POST then
        (let event_name = strip (form_get (form req) ''event_name'' []);
             require_team_name = (map_of (form req) ''require_team_name'' = Some ''on'');
             (min_members, max_members) = member_limits (form req);
             doc = [(''event_name'', VStr event_name),
                    (''require_team_name'', VBool require_team_name),
                    (''min_members'', VInt min_members),
                    (''max_members'', VInt max_members),
                    (''active'', VBool True),
                    (''created_at'', VDate (utcnow req))]
         in (case insert_one st (event_indexes st) (events_collection st) doc (new_oid req) of
               Inr (inserted_id, coll) \<Rightarrow>
                 (Redirect ''admin_events'',
                  flash (Msg ''Event created.'') ''success'' (st\<lparr>events_collection := coll\<rparr>))
             | Inl e \<Rightarrow>
                 (if e = DuplicateKeyError then
                    (Redirect ''admin_events'', flash (Msg ''Event name already exists.'') ''error'' st)
                  else
                    (Redirect ''admin_events'', flash (MsgExc ''Error: '' e) ''error'' st))))
      else
        (case find_sorted st (\<lambda>d. True) (events_collection st) of
           Inl e \<Rightarrow> (ServerError e, st)
         | Inr es \<Rightarrow>
             (Template ''admin_events.html'' [(''events'', CDocs (map doc_to_json es))] 200, st)))"

definition admin_events :: "state \<Rightarrow> request \<Rightarrow> response \<times> state" where
  "admin_events = admin_required admin_events_view"

definition admin_edit_event_view :: "string \<Rightarrow> state \<Rightarrow> request \<Rightarrow> response \<times> state" where
  "admin_edit_event_view event_id st req =
     (case ObjectId event_id of
        Inl e \<Rightarrow> (Redirect ''admin_events'', flash (Msg ''Invalid event id.'') ''error'' st)
      | Inr oid \<Rightarrow>
          (case find_one st (events_collection st) (VOid oid) of
             Inl e \<Rightarrow> (ServerError e, st)
           | Inr None \<Rightarrow> (Redirect ''admin_events'', flash (Msg ''Event not found.'') ''error'' st)
           | Inr (Some event) \<Rightarrow>
               (if event = [] then
                  (Redirect ''admin_events'', flash (Msg ''Event not found.'') ''error'' st)
                else if req_method req = POST then
                  (let event_name = strip (form_get (form req) ''event_name'' []);
                       require_team_name = (map_of (form req) ''require_team_name'' = Some ''on'');
                       (min_members, max_members) = member_limits (form req);
                       active = (map_of (form req) ''active'' = Some ''on'');
                       update = [(''event_name'', VStr event_name),
                                 (''require_team_name'', VBool require_team_name),
                                 (''min_members'', VInt min_members),
                                 (''max_members'', VInt max_members),
                                 (''active'', VBool active),
                                 (''updated_at'', VDate (utcnow req))]
                   in (case update_one st (event_indexes st) (events_collection st) (VOid oid) update of
                         Inr (matched_count, coll) \<Rightarrow>
                           (Redirect ''admin_events'',
                            flash (Msg ''Event updated.'') ''success'' (st\<lparr>events_collection := coll\<rparr>))
                       | Inl e \<Rightarrow>
                           (if e = DuplicateKeyError then
                              (Redirect ''admin_events'',
                               flash (Msg ''Event name conflicts with existing event.'') ''error'' st)
                            else
                              (Redirect ''admin_events'', flash (MsgExc ''Error: '' e) ''error'' st))))
                else
                  (Template ''admin_edit_event.html'' [(''event'', CDoc (doc_to_json event))] 200, st))))"

definition admin_edit_event :: "string \<Rightarrow> state \<Rightarrow> request \<Rightarrow> response \<times> state" where
  "admin_edit_event event_id = admin_required (admin_edit_event_view event_id)"

section \<open>Admin: teams\<close>

text \<open>
  The \<open>while True\<close> loop of \<open>admin_edit_team\<close>: positions are read from \<open>i\<close> on until the
  form has no key \<open>member_i_name\<close>.  It ends because the form has finitely many keys and
  different positions have different keys; the lemmas up to the termination proof say so.
\<close>

lemma digit_val_digit_char: "0 \<le> d \<Longrightarrow> d < 10 \<Longrightarrow> digit_val (digit_char d) = d"
  by (simp add: digit_val_def digit_char_def)

lemma is_digit_digit_char: "0 \<le> d \<Longrightarrow> d < 10 \<Longrightarrow> is_digit (digit_char d)"
  by (simp add: is_digit_def digit_char_def)

definition digits_val :: "string \<Rightarrow> int" where
  "digits_val s = foldl (\<lambda>a c. 10 * a + digit_val c) 0 s"

lemma str_digits_small: "n < 10 \<Longrightarrow> str_digits n = [digit_char n]"
  by (subst str_digits.simps) simp

lemma str_digits_large:
  "\<not> n < 10 \<Longrightarrow> str_digits n = str_digits (n div 10) @ [digit_char (n mod 10)]"
  by (subst str_digits.simps) simp

lemma digits_val_str_digits: "0 \<le> n \<Longrightarrow> digits_val (str_digits n) = n"
proof (induction n rule: str_digits.induct)
  case (1 n)
  show ?case
  proof (cases "n < 10")
    case True
    then have "str_digits n = [digit_char n]" by (rule str_digits_small)
    with True "1.prems" show ?thesis by (simp add: digits_val_def digit_val_digit_char)
  next
    case False
    then have eq: "str_digits n = str_digits (n div 10) @ [digit_char (n mod 10)]"
      by (rule str_digits_large)
    from 1 False have "digits_val (str_digits (n div 10)) = n div 10" by simp
    then have "foldl (\<lambda>a c. 10 * a + digit_val c) 0 (str_digits (n div 10)) = n div 10"
      by (simp add: digits_val_def)
    then show ?thesis
      unfolding eq digits_val_def by (simp add: digit_val_digit_char)
  qed
qed

lemma str_digits_digits: "0 \<le> n \<Longrightarrow> \<forall>c \<in> set (str_digits n). is_digit c"
proof (induction n rule: str_digits.induct)
  case (1 n)
  show ?case
  proof (cases "n < 10")
    case True
    then have "str_digits n = [digit_char n]" by (rule str_digits_small)
    with True "1.prems" show ?thesis by (simp add: is_digit_digit_char)
  next
    case False
    then have eq: "str_digits n = str_digits (n div 10) @ [digit_char (n mod 10)]"
      by (rule str_digits_large)
    from 1 False have "\<forall>c \<in> set (str_digits (n div 10)). is_digit c" by simp
    moreover have "is_digit (digit_char (n mod 10))" by (rule is_digit_digit_char) simp_all
    ultimately show ?thesis unfolding eq by simp
  qed
qed

lemma str_digits_inj: "0 \<le> a \<Longrightarrow> 0 \<le> b \<Longrightarrow> str_digits a = str_digits b \<Longrightarrow> a = b"
  by (metis digits_val_str_digits)

lemma str_digits_no_minus: "0 \<le> n \<Longrightarrow> str_digits n \<noteq> CHR ''-'' # s"
proof
  assume "0 \<le> n" and "str_digits n = CHR ''-'' # s"
  then have "CHR ''-'' \<in> set (str_digits n)" by simp
  then have "is_digit (CHR ''-'')" using str_digits_digits[OF \<open>0 \<le> n\<close>] by blast
  then show False by (simp add: is_digit_def)
qed

lemma str_int_inj:
  assumes "str_int a = str_int b"
  shows "a = b"
proof (cases "a < 0")
  case a: True
  show ?thesis
  proof (cases "b < 0")
    case True
    with a assms have "str_digits (- a) = str_digits (- b)" by (simp add: str_int_def)
    with a True have "- a = - b" by (intro str_digits_inj) simp_all
    then show ?thesis by simp
  next
    case False
    with a assms have "str_digits b = CHR ''-'' # str_digits (- a)" by (simp add: str_int_def)
    with False show ?thesis using str_digits_no_minus[of b] by simp
  qed
next
  case a: False
  show ?thesis
  proof (cases "b < 0")
    case True
    with a assms have "str_digits a = CHR ''-'' # str_digits (- b)" by (simp add: str_int_def)
    with a show ?thesis using str_digits_no_minus[of a] by simp
  next
    case False
    with a assms have "str_digits a = str_digits b" by (simp add: str_int_def)
    with a False show ?thesis by (intro str_digits_inj) simp_all
  qed
qed

lemma member_key_inj: "member_key a sfx = member_key b sfx \<Longrightarrow> a = b"
  by (auto simp: member_key_def dest: str_int_inj)

definition later_keys :: "form \<Rightarrow> int \<Rightarrow> string set" where
  "later_keys f i = {k \<in> fst ` set f. \<exists>j \<ge> i. k = member_key j ''name''}"

lemma later_keys_decrease:
  assumes "map_of f (member_key i ''name'') \<noteq> None"
  shows "card (later_keys f (i + 1)) < card (later_keys f i)"
proof (rule psubset_card_mono)
  show "finite (later_keys f i)" by (simp add: later_keys_def)
  from assms have "member_key i ''name'' \<in> fst ` set f"
    by (metis map_of_eq_None_iff)
  then have "member_key i ''name'' \<in> later_keys f i"
    by (auto simp: later_keys_def)
  moreover have "member_key i ''name'' \<notin> later_keys f (i + 1)"
    by (auto simp: later_keys_def dest: member_key_inj)
  moreover have "later_keys f (i + 1) \<subseteq> later_keys f i"
  proof
    fix k assume "k \<in> later_keys f (i + 1)"
    then obtain j where "k \<in> fst ` set f" "i + 1 \<le> j" "k = member_key j ''name''"
      unfolding later_keys_def by blast
    then have "k \<in> fst ` set f \<and> i \<le> j \<and> k = member_key j ''name''" by simp
    then show "k \<in> later_keys f i" unfolding later_keys_def by blast
  qed
  ultimately show "later_keys f (i + 1) \<subset> later_keys f i" by blast
qed

function edit_members :: "form \<Rightarrow> int \<Rightarrow> bson list \<Rightarrow> bson list" where
  "edit_members f i members =
     (if map_of f (member_key i ''name'') = None then members
      else
        (let name = member_field f i ''name'';
             email = member_field f i ''email'';
             reg = member_field f i ''reg_no''
         in edit_members f (i + 1)
              (if name \<noteq> [] \<or> email \<noteq> [] \<or> reg \<noteq> []
               then members @ [member_dict name email reg] else members)))"
  by pat_completeness auto

termination
  by (relation "measure (\<lambda>(f, i, members). card (later_keys f i))")
     (simp_all add: later_keys_decrease)

declare edit_members.simps [simp del]

definition admin_edit_team_view :: "string \<Rightarrow> state \<Rightarrow> request \<Rightarrow> response \<times> state" where
  "admin_edit_team_view team_id st req =
     (case ObjectId team_id of
        Inl e \<Rightarrow> (Redirect ''admin_teams'', flash (Msg ''Invalid team id.'') ''error'' st)
      | Inr oid \<Rightarrow>
          (if req_method req = POST then
             (let data = [(''team_name'', VStr (strip (form_get (form req) ''team_name'' []))),
                          (''team_lead_name'', VStr (strip (form_get (form req) ''team_lead_name'' []))),
                          (''team_lead_email'', VStr (strip (form_get (form req) ''team_lead_email'' []))),
                          (''team_lead_phone'', VStr (strip (form_get (form req) ''team_lead_phone'' []))),
                          (''team_lead_reg_no'', VStr (strip (form_get (form req) ''team_lead_reg_no'' []))),
                          (''updated_at'', VDate (utcnow req))];
                  members = edit_members (form req) 1 [];
                  data = (if members \<noteq> [] then data @ [(''members'', VList members)] else data)
              in (case update_one st [] (teams_collection st) (VOid oid) data of
                    Inr (matched_count, coll) \<Rightarrow>
                      (if matched_count = 0 then
                         (Redirect ''admin_teams'', flash (Msg ''Team not found.'') ''error'' st)
                       else
                         (Redirect ''admin_teams'',
                          flash (Msg ''Team updated successfully.'') ''success''
                            (st\<lparr>teams_collection := coll\<rparr>)))
                  | Inl e \<Rightarrow>
                      (Redirect ''admin_teams'', flash (MsgExc ''Error updating team: '' e) ''error'' st)))
           else
             (case find_one st (teams_collection st) (VOid oid) of
                Inl e \<Rightarrow> (ServerError e, st)
              | Inr None \<Rightarrow> (Redirect ''admin_teams'', flash (Msg ''Team not found.'') ''error'' st)
              | Inr (Some team) \<Rightarrow>
                  (if team = [] then
                     (Redirect ''admin_teams'', flash (Msg ''Team not found.'') ''error'' st)
                   else
                     (Template ''edit_team.html''
                        [(''team'', CDoc (doc_to_json team)), (''view_only'', CBool False)] 200, st)))))"

definition admin_edit_team :: "string \<Rightarrow> state \<Rightarrow> request \<Rightarrow> response \<times> state" where
  "admin_edit_team team_id = admin_required (admin_edit_team_view team_id)"

section \<open>Export and statistics\<close>

text \<open>
  What is written to a file object is a \<open>str\<close> or a \<open>bytes\<close> value.  \<open>io.BytesIO.write\<close>
  appends bytes and raises \<open>TypeError\<close> for a \<open>str\<close>.
\<close>

datatype payload = Str string | Bytes string

definition BytesIO_write :: "string \<Rightarrow> payload \<Rightarrow> py_error + string" where
  "BytesIO_write buf p = (case p of Bytes b \<Rightarrow> Inr (buf @ b) | Str s \<Rightarrow> Inl TypeError)"

text \<open>
  \<open>csv.writer(si).writerow(row)\<close> for the \<open>BytesIO\<close> object \<open>si\<close>: the writer formats the row
  as one line of text, a \<open>str\<close>, and passes it to \<open>si.write\<close>.  How a row is formatted is
  the library's business and a parameter here.
\<close>

definition writerow :: "(bson list \<Rightarrow> string) \<Rightarrow> string \<Rightarrow> bson list \<Rightarrow> py_error + string" where
  "writerow csv_line si row = BytesIO_write si (Str (csv_line row))"

text \<open>The loop over the rows of the export; \<open>row.get(k, "")\<close> fills a missing key.\<close>

fun write_rows ::
  "(bson list \<Rightarrow> string) \<Rightarrow> string list \<Rightarrow> string \<Rightarrow> doc list \<Rightarrow> py_error + string" where
  "write_rows csv_line keys si [] = Inr si"
| "write_rows csv_line keys si (row # rows) =
     (case writerow csv_line si
             (map (\<lambda>k. case map_of row k of None \<Rightarrow> VStr [] | Some v \<Rightarrow> v) keys) of
        Inl e \<Rightarrow> Inl e
      | Inr si' \<Rightarrow> write_rows csv_line keys si' rows)"

text \<open>
  \<open>_export_teams(format)\<close>.  Neither the query nor the writing is inside a \<open>try\<close>, so an
  exception ends the request with a server error.  The workbook of the other branch is
  represented by the records it is made from.
\<close>

definition export_teams :: "(bson list \<Rightarrow> string) \<Rightarrow> string \<Rightarrow> state \<Rightarrow> response \<times> state" where
  "export_teams csv_line format st =
     (case find_sorted st (\<lambda>d. True) (teams_collection st) of
        Inl e \<Rightarrow> (ServerError e, st)
      | Inr teams_list \<Rightarrow>
          (let serializable = map doc_to_json teams_list
           in if format = ''csv'' then
                (case serializable of
                   [] \<Rightarrow> (SendFile ''teams.csv'' [], st)
                 | first # others \<Rightarrow>
                     (let keys = map fst first
                      in (case writerow csv_line [] (map VStr keys) of
                            Inl e \<Rightarrow> (ServerError e, st)
                          | Inr si \<Rightarrow>
                              (case write_rows csv_line keys si serializable of
                                 Inl e \<Rightarrow> (ServerError e, st)
                               | Inr si' \<Rightarrow> (SendFile ''teams.csv'' si', st)))))
              else (SendWorkbook ''team_details.xlsx'' serializable, st)))"

definition export_excel :: "(bson list \<Rightarrow> string) \<Rightarrow> state \<Rightarrow> request \<Rightarrow> response \<times> state" where
  "export_excel csv_line = admin_required (\<lambda>st req. export_teams csv_line ''excel'' st)"

text \<open>\<open>s.lower()\<close>, on the code points below 256.\<close>

definition lower_char :: "char \<Rightarrow> char" where
  "lower_char c =
     (let n = (of_char c :: nat)
      in if (65 \<le> n \<and> n \<le> 90) \<or> (192 \<le> n \<and> n \<le> 222 \<and> n \<noteq> 215) then char_of (n + 32) else c)"

definition admin_export_teams :: "(bson list \<Rightarrow> string) \<Rightarrow> state \<Rightarrow> request \<Rightarrow> response \<times> state" where
  "admin_export_teams csv_line =
     admin_required
       (\<lambda>st req. export_teams csv_line (map lower_char (form_get (args req) ''format'' ''excel'')) st)"

text \<open>\<open>count_documents(filter)\<close>.\<close>

definition count_documents :: "state \<Rightarrow> (doc \<Rightarrow> bool) \<Rightarrow> doc list \<Rightarrow> py_error + nat" where
  "count_documents st flt coll =
     (if db_fault st then Inl OperationFailure else Inr (length (filter flt coll)))"

text \<open>
  The filter \<open>{"created_at": {"$gte": lo, "$lt": hi}}\<close>: the field is a date, not before \<open>lo\<close>
  and before \<open>hi\<close>.
\<close>

definition created_between :: "datetime \<Rightarrow> datetime \<Rightarrow> doc \<Rightarrow> bool" where
  "created_between lo hi d =
     (case map_of d ''created_at'' of
        Some (VDate t) \<Rightarrow> dt_key lo \<le> dt_key t \<and> dt_key t < dt_key hi
      | _ \<Rightarrow> False)"

text \<open>\<open>_compute_stats()\<close>, at the time \<open>datetime.utcnow()\<close> of the request.\<close>

definition compute_stats :: "state \<Rightarrow> request \<Rightarrow> py_error + (nat \<times> nat)" where
  "compute_stats st req =
     (case count_documents st (\<lambda>d. True) (teams_collection st) of
        Inl e \<Rightarrow> Inl e
      | Inr total' \<Rightarrow>
          (let today_utc = utcnow req;
               lo = \<lparr>year = year today_utc, month = month today_utc, day = day today_utc,
                     hour = 0, minute = 0, second = 0, microsecond = 0\<rparr>;
               hi = \<lparr>year = year today_utc, month = month today_utc, day = day today_utc,
                     hour = 23, minute = 59, second = 59, microsecond = 999999\<rparr>
           in (case count_documents st (created_between lo hi) (teams_collection st) of
                 Inl e \<Rightarrow> Inl e
               | Inr today_count \<Rightarrow> Inr (total', today_count))))"

definition public_stats :: "state \<Rightarrow> request \<Rightarrow> response \<times> state" where
  "public_stats st req =
     (case compute_stats st req of
        Inl e \<Rightarrow> (ServerError e, st)
      | Inr (total', today_count) \<Rightarrow>
          (Jsonify [(''total'', int total'), (''today'', int today_count)], st))"

definition admin_stats :: "state \<Rightarrow> request \<Rightarrow> response \<times> state" where
  "admin_stats = admin_required public_stats"

section \<open>Notions of the statements, and example data\<close>

text \<open>What the loop reads at position \<open>i\<close>: the record it appends, whether name and email
  are both there, and whether the three fields are all empty.\<close>

definition member_at :: "form \<Rightarrow> int \<Rightarrow> bson" where
  "member_at f i =
     member_dict (member_field f i ''name'') (member_field f i ''email'') (member_field f i ''reg_no'')"

definition required_ok :: "form \<Rightarrow> int \<Rightarrow> bool" where
  "required_ok f i = (member_field f i ''name'' \<noteq> [] \<and> member_field f i ''email'' \<noteq> [])"

definition blank :: "form \<Rightarrow> int \<Rightarrow> bool" where
  "blank f i =
     (member_field f i ''name'' = [] \<and> member_field f i ''email'' = [] \<and>
      member_field f i ''reg_no'' = [])"

definition example_event :: doc where
  "example_event =
     [(''_id'', VOid ''0123456789abcdefabcdef01''), (''event_name'', VStr ''Hackathon''),
      (''require_team_name'', VBool False), (''min_members'', VInt 2),
      (''max_members'', VInt 4), (''active'', VBool False),
      (''created_at'', VDate \<lparr>year = 2024, month = 1, day = 1, hour = 9, minute = 0, second = 0, microsecond = 0\<rparr>)]"

definition example_state :: state where
  "example_state =
     \<lparr>session_admin = None, flashes = [], events_collection = [example_event],
      teams_collection = [], legacy_collection = [], event_name_unique = True, db_fault = False\<rparr>"

definition example_submission :: request where
  "example_submission =
     \<lparr>req_method = POST,
      form = [(''team_name'', ''Bytes''), (''team_lead_name'', ''A''), (''team_lead_email'', ''a@x.com''),
              (''member_1_name'', ''B''), (''member_1_email'', ''b@x.com''),
              (''member_2_name'', ''C''), (''member_2_email'', ''c@x.com''),
              (''member_3_name'', []), (''member_3_email'', '' '')],
      args = [],
      utcnow = \<lparr>year = 2024, month = 1, day = 2, hour = 3, minute = 4, second = 5, microsecond = 6\<rparr>,
      new_oid = ''aaaaaaaaaaaaaaaaaaaaaaaa''\<rparr>"

definition incomplete_submission :: request where
  "incomplete_submission =
     example_submission\<lparr>form :=
       [(''team_lead_name'', ''A''), (''team_lead_email'', ''a@x.com''),
        (''member_1_name'', ''B''), (''member_1_email'', ''b@x.com''),
        (''member_2_name'', ''C''), (''member_3_name'', ''D'')]\<rparr>"


text \<open>An admin session, and an event form that asks for five to two members.\<close>

definition example_admin_state :: state where
  "example_admin_state = example_state\<lparr>session_admin := Some (VBool True)\<rparr>"

definition example_event_form :: request where
  "example_event_form =
     example_submission\<lparr>form :=
       [(''event_name'', ''Quiz''), (''require_team_name'', ''on''),
        (''min_members'', ''5''), (''max_members'', ''2'')]\<rparr>"


text \<open>
  A registration made in the last microsecond of a day, a state that holds it, and an
  admin's edit of that team whose only member field is blank.
\<close>

definition last_microsecond :: datetime where
  "last_microsecond =
     \<lparr>year = 2024, month = 1, day = 2, hour = 23, minute = 59, second = 59, microsecond = 999999\<rparr>"

definition late_submission :: request where
  "late_submission = example_submission\<lparr>utcnow := last_microsecond\<rparr>"

definition example_team :: doc where
  "example_team =
     [(''event_id'', VStr ''0123456789abcdefabcdef01''), (''event_name'', VStr ''Hackathon''),
      (''team_name'', VNone), (''team_lead_name'', VStr ''A''), (''team_lead_email'', VStr ''a@x.com''),
      (''team_lead_phone'', VStr []), (''team_lead_reg_no'', VStr []),
      (''members'',
       VList [member_dict ''B'' ''b@x.com'' [], member_dict ''C'' ''c@x.com'' []]),
      (''created_at'', VDate last_microsecond),
      (''_id'', VOid ''aaaaaaaaaaaaaaaaaaaaaaaa'')]"

definition example_team_state :: state where
  "example_team_state = example_admin_state\<lparr>teams_collection := [example_team]\<rparr>"

definition example_team_edit :: request where
  "example_team_edit =
     example_submission\<lparr>form :=
       [(''team_name'', ''Bits''), (''team_lead_name'', ''Z''), (''member_1_name'', '' '')]\<rparr>"

text \<open>
  A response without the event document its template is given, and a state in which
  every event has its \<open>active\<close> field set to \<open>a\<close>.
\<close>

fun without_event :: "response \<Rightarrow> response" where
  "without_event (Template name context code) =
     Template name (filter (\<lambda>kv. fst kv \<noteq> ''event'') context) code"
| "without_event r = r"

definition flag_events :: "bson \<Rightarrow> state \<Rightarrow> state" where
  "flag_events a st =
     st\<lparr>events_collection := map (AList.update ''active'' a) (events_collection st)\<rparr>"

section \<open>Registration: the rule evaluator\<close>

lemma gather_members_pass:
  "\<forall>i \<in> set xs. i \<le> m \<longrightarrow> required_ok f i \<Longrightarrow>
   gather_members f m xs acc =
     (acc @ map (member_at f) (filter (\<lambda>i. i \<le> m \<or> \<not> blank f i) xs), None)"
  by (induction xs arbitrary: acc) (auto simp: Let_def required_ok_def blank_def member_at_def)

lemma gather_members_break:
  "\<forall>j \<in> set xs. j \<le> m \<longrightarrow> required_ok f j \<Longrightarrow> i \<le> m \<Longrightarrow> \<not> required_ok f i \<Longrightarrow>
   gather_members f m (xs @ i # ys) acc =
     (acc @ map (member_at f) (filter (\<lambda>i. i \<le> m \<or> \<not> blank f i) xs),
      Some (''Member '' @ str_int i @ '' name and email are required.''))"
  by (induction xs arbitrary: acc) (auto simp: Let_def required_ok_def blank_def member_at_def)

lemma gather_members_None:
  "gather_members f m xs acc = (ms, None) \<Longrightarrow> \<forall>i \<in> set xs. i \<le> m \<longrightarrow> required_ok f i"
  by (induction xs arbitrary: acc) (auto simp: Let_def required_ok_def split: if_splits)

lemma upto_split_at: "0 \<le> m \<Longrightarrow> m \<le> n \<Longrightarrow> [1..n] = [1..m] @ [m + 1..n]"
  using upto_split2[of 1 m n] 
  by (cases "m = 0") (auto simp: upto_split2)

lemma filter_required:
  assumes "0 \<le> m" "m \<le> n" "\<forall>i \<in> set [m + 1..n]. blank f i"
  shows "filter (\<lambda>i. i \<le> m \<or> \<not> blank f i) [1..n] = [1..m]"
proof -
  have "filter (\<lambda>i. i \<le> m \<or> \<not> blank f i) [1..m] = [1..m]"
    by (rule filter_True) simp
  moreover have "filter (\<lambda>i. i \<le> m \<or> \<not> blank f i) [m + 1..n] = []"
    using assms(3) by (auto simp: filter_empty_conv)
  ultimately show ?thesis
    using upto_split_at[OF assms(1,2)] by simp
qed

lemma json_value_key: "json_value (k, v) = (k, snd (json_value (k, v)))"
  by (simp add: json_value_def str_id_def split: bson.splits)

lemma map_of_map_json_value:
  "map_of (map json_value d) k = map_option (\<lambda>v. snd (json_value (k, v))) (map_of d k)"
proof (induction d)
  case Nil
  then show ?case by simp
next
  case (Cons kv d)
  obtain a b where kv: "kv = (a, b)" by (cases kv)
  have "json_value (a, b) = (a, snd (json_value (a, b)))" by (rule json_value_key)
  then show ?case using Cons kv by (cases "json_value (a, b)") auto
qed

lemma map_of_doc_to_json:
  "map_of (doc_to_json d) k = map_option (\<lambda>v. snd (json_value (k, v))) (map_of d k)"
  by (simp add: doc_to_json_def map_of_map_json_value)

lemma json_value_plain [simp]:
  "k \<noteq> ''_id'' \<Longrightarrow> snd (json_value (k, VInt i)) = VInt i"
  "k \<noteq> ''_id'' \<Longrightarrow> snd (json_value (k, VBool b)) = VBool b"
  "k \<noteq> ''_id'' \<Longrightarrow> snd (json_value (k, VStr s)) = VStr s"
  "k \<noteq> ''_id'' \<Longrightarrow> snd (json_value (k, VNone)) = VNone"
  by (simp_all add: json_value_def)

lemma insert_one_new:
  "map_of d ''_id'' = None \<Longrightarrow>
   insert_one st uniq coll d fresh =
     (if db_fault st then Inl OperationFailure
      else if clashes (''_id'' # uniq) coll (d @ [(''_id'', VOid fresh)]) then Inl DuplicateKeyError
      else Inr (VOid fresh, coll @ [d @ [(''_id'', VOid fresh)]]))"
  by (simp add: insert_one_def)

lemma store_registration_persisted:
  assumes "store_registration event reg_doc st req = (resp, st')"
    and "teams_collection st' \<noteq> teams_collection st"
    and "map_of reg_doc ''_id'' = None"
  shows "teams_collection st' = teams_collection st @ [reg_doc @ [(''_id'', VOid (new_oid req))]]"
  using assms
  by (auto simp: store_registration_def insert_one_new Let_def split: sum.splits if_splits)

lemma post_persisted:
  assumes "team_register_post event st req = (resp, st')"
    and "teams_collection st' \<noteq> teams_collection st"
  shows "\<exists>d ms m n. teams_collection st' = teams_collection st @ [d] \<and>
           int_of_bson (case map_of event ''min_members'' of None \<Rightarrow> VInt 1 | Some v \<Rightarrow> v) = Inr m \<and>
           int_of_bson (case map_of event ''max_members'' of None \<Rightarrow> VInt 1 | Some v \<Rightarrow> v) = Inr n \<and>
           gather_members (form req) m [1..n] [] = (ms, None) \<and>
           map_of d ''members'' = Some (VList ms) \<and>
           map_of d ''team_name'' =
             Some (if (case map_of event ''require_team_name'' of None \<Rightarrow> False | Some v \<Rightarrow> truthy v)
                   then VStr (strip (form_get (form req) ''team_name'' [])) else VNone)"
proof (cases "int_of_bson (case map_of event ''min_members'' of None \<Rightarrow> VInt 1 | Some v \<Rightarrow> v)")
  case (Inl e)
  then show ?thesis using assms by (simp add: team_register_post_def)
next
  case m: (Inr m)
  show ?thesis
  proof (cases "int_of_bson (case map_of event ''max_members'' of None \<Rightarrow> VInt 1 | Some v \<Rightarrow> v)")
    case (Inl e)
    then show ?thesis using assms m by (simp add: team_register_post_def)
  next
    case n: (Inr n)
    obtain ms miss where g: "gather_members (form req) m [1..n] [] = (ms, miss)"
      by (cases "gather_members (form req) m [1..n] []")
    show ?thesis
    proof (cases miss)
      case (Some msg)
      then show ?thesis using assms m n g by (simp add: team_register_post_def)
    next
      case None
      let ?tn = "if (case map_of event ''require_team_name'' of None \<Rightarrow> False | Some v \<Rightarrow> truthy v)
                   then VStr (strip (form_get (form req) ''team_name'' [])) else VNone"
      from assms m n g None obtain rd where
        rd: "store_registration event rd st req = (resp, st')"
          "map_of rd ''_id'' = None" "map_of rd ''members'' = Some (VList ms)"
          "map_of rd ''team_name'' = Some ?tn"
        by (auto simp: team_register_post_def Let_def split: option.splits if_splits)
      from store_registration_persisted[OF rd(1) assms(2) rd(2)] rd(2,3,4) m n g None
      show ?thesis by auto
    qed
  qed
qed

lemma find_has_id: "find (has_id v) coll = Some d \<Longrightarrow> d \<noteq> []"
  by (auto simp: find_Some_iff has_id_def)

lemma event_doc_found:
  "ObjectId eid = Inr oid \<Longrightarrow> \<not> db_fault st \<Longrightarrow>
   find (has_id (VOid oid)) (events_collection st) = Some ev \<Longrightarrow> event_doc st eid = Some ev"
  by (simp add: event_doc_def find_one_def)

lemma team_register_found:
  assumes "eid \<noteq> []" "event_doc st eid = Some ev" "ev \<noteq> []"
  shows "team_register (Some eid) st req =
           (if req_method req = POST then team_register_post (doc_to_json ev) st req
            else (Template ''team_register.html'' [(''event'', CDoc (doc_to_json ev))] 200, st))"
  using assms by (simp add: team_register_def Let_def)

text \<open>
  Claim C1.  Take an event with \<open>min_members = m\<close> and \<open>max_members = n\<close>, \<open>0 \<le> m \<le> n\<close>, and a
  submission whose fields at the positions \<open>m + 1\<close> to \<open>n\<close> are all empty.  Whenever the
  handler stores a registration for it, the stored \<open>members\<close> are exactly the records of the
  positions \<open>1\<close> to \<open>m\<close>, in that order, so there are \<open>m\<close> of them.  (A registration is
  stored only if name and email are non-empty at each of the positions \<open>1\<close> to \<open>m\<close>.)
\<close>

theorem members_length_is_min_members:
  assumes "eid \<noteq> []" and "ObjectId eid = Inr oid" and "\<not> db_fault st"
    and "find (has_id (VOid oid)) (events_collection st) = Some ev"
    and "map_of ev ''min_members'' = Some (VInt m)"
    and "map_of ev ''max_members'' = Some (VInt n)"
    and "0 \<le> m" and "m \<le> n"
    and "req_method req = POST"
    and "\<forall>i \<in> set [m + 1..n]. blank (form req) i"
    and "team_register (Some eid) st req = (resp, st')"
    and "teams_collection st' \<noteq> teams_collection st"
  shows "\<exists>d ms. teams_collection st' = teams_collection st @ [d] \<and>
           map_of d ''members'' = Some (VList ms) \<and>
           ms = map (member_at (form req)) [1..m] \<and> int (length ms) = m"
proof -
  let ?e = "doc_to_json ev"
  have post: "team_register_post ?e st req = (resp, st')"
    using assms(1-4,9,11) team_register_found[OF assms(1) event_doc_found find_has_id]
    by simp
  have mn: "map_of ?e ''min_members'' = Some (VInt m)" "map_of ?e ''max_members'' = Some (VInt n)"
    using assms(5,6) by (simp_all add: map_of_doc_to_json)
  from post_persisted[OF post assms(12)] mn
  obtain d ms where d: "teams_collection st' = teams_collection st @ [d]"
    "gather_members (form req) m [1..n] [] = (ms, None)"
    "map_of d ''members'' = Some (VList ms)"
    by auto
  have "\<forall>i \<in> set [1..n]. i \<le> m \<longrightarrow> required_ok (form req) i"
    using gather_members_None[OF d(2)] .
  then have "gather_members (form req) m [1..n] [] =
      ([] @ map (member_at (form req)) (filter (\<lambda>i. i \<le> m \<or> \<not> blank (form req) i) [1..n]), None)"
    by (rule gather_members_pass)
  then have "ms = map (member_at (form req)) [1..m]"
    using d(2) filter_required[OF assms(7,8,10)] by simp
  moreover have "int (length (map (member_at (form req)) [1..m])) = m"
    using assms(7) by simp
  ultimately show ?thesis using d by auto
qed

text \<open>
  Claim C8.  When the identifier of the route is malformed, or no event of the collection
  has it, the handler answers \<open>Invalid event\<close> with status 404, for \<open>GET\<close> and \<open>POST\<close>
  alike, and the state is unchanged.
\<close>

theorem unknown_event_is_404:
  assumes "eid \<noteq> []"
    and "\<forall>oid. ObjectId eid = Inr oid \<longrightarrow> (\<forall>d \<in> set (events_collection st). \<not> has_id (VOid oid) d)"
  shows "team_register (Some eid) st req = (Body ''Invalid event'' 404, st)"
proof -
  have "event_doc st eid = None"
    using assms(2)
    by (auto simp: event_doc_def find_one_def find_None_iff split: sum.splits)
  then show ?thesis using assms(1) by (simp add: team_register_def)
qed

text \<open>
  Claim C3.  For an event with \<open>require_team_name = false\<close>, the registration the handler
  stores has \<open>team_name\<close> set to \<open>None\<close>, whatever the form held under \<open>team_name\<close>.
\<close>

theorem no_team_name_when_not_required:
  assumes "eid \<noteq> []" and "ObjectId eid = Inr oid" and "\<not> db_fault st"
    and "find (has_id (VOid oid)) (events_collection st) = Some ev"
    and "map_of ev ''require_team_name'' = Some (VBool False)"
    and "req_method req = POST"
    and "team_register (Some eid) st req = (resp, st')"
    and "teams_collection st' \<noteq> teams_collection st"
  shows "\<exists>d. teams_collection st' = teams_collection st @ [d] \<and> map_of d ''team_name'' = Some VNone"
proof -
  let ?e = "doc_to_json ev"
  have post: "team_register_post ?e st req = (resp, st')"
    using assms(1-4,6,7) team_register_found[OF assms(1) event_doc_found find_has_id]
    by simp
  have "map_of ?e ''require_team_name'' = Some (VBool False)"
    using assms(5) by (simp add: map_of_doc_to_json)
  with post_persisted[OF post assms(8)] show ?thesis by auto
qed


lemma gather_members_cong:
  assumes "\<forall>j \<in> set xs. \<forall>sfx \<in> set [''name'', ''email'', ''reg_no'']. member_field g j sfx = member_field f j sfx"
  shows "gather_members g m xs acc = gather_members f m xs acc"
  using assms by (induction xs arbitrary: acc) (auto simp: Let_def)

lemma gather_members_stops:
  assumes "i \<le> m" "\<not> required_ok f i" "\<forall>j \<in> set xs. required_ok f j"
  shows "gather_members f m (xs @ i # ys) acc = gather_members f m (xs @ [i]) acc"
    and "snd (gather_members f m (xs @ i # ys) acc) =
           Some (''Member '' @ str_int i @ '' name and email are required.'')"
  using assms gather_members_break[of xs m f i ys acc] gather_members_break[of xs m f i "[]" acc]
  by simp_all

text \<open>
  Claim C2.  Let \<open>i\<close> be the first position, \<open>1 \<le> i \<le> min_members\<close>, whose name or email is
  empty.  The handler answers with status 400 and the error
  \<open>Member i name and email are required.\<close>, and leaves the store as it was.  The loop does
  not look past position \<open>i\<close>: a form that agrees with the submitted one on the positions up
  to \<open>i\<close> gives the same result of the loop, whatever it holds at the later positions.
\<close>

theorem first_missing_member_rejected:
  assumes "eid \<noteq> []" and "ObjectId eid = Inr oid" and "\<not> db_fault st"
    and "find (has_id (VOid oid)) (events_collection st) = Some ev"
    and "map_of ev ''min_members'' = Some (VInt m)"
    and "map_of ev ''max_members'' = Some (VInt n)"
    and "req_method req = POST"
    and "1 \<le> i" and "i \<le> m" and "i \<le> n"
    and "\<not> required_ok (form req) i"
    and "\<forall>j \<in> set [1..i - 1]. required_ok (form req) j"
  shows "team_register (Some eid) st req =
           (Template ''team_register.html''
              [(''event'', CDoc (doc_to_json ev)),
               (''error'', CError (Msg (''Member '' @ str_int i @ '' name and email are required.''))),
               (''form'', CForm (form req))] 400,
            st) \<and>
         (\<forall>g. (\<forall>j \<in> set [1..i]. \<forall>sfx \<in> set [''name'', ''email'', ''reg_no''].
                  member_field g j sfx = member_field (form req) j sfx) \<longrightarrow>
              gather_members g m [1..n] [] = gather_members (form req) m [1..n] [])"
proof -
  let ?e = "doc_to_json ev"
  let ?msg = "''Member '' @ str_int i @ '' name and email are required.''"
  have split: "[1..n] = [1..i - 1] @ i # [i + 1..n]"
    using assms(8,10) by (rule upto_split3)
  have pre: "\<forall>j \<in> set [1..i - 1]. j \<le> m \<longrightarrow> required_ok (form req) j"
    using assms(12) by simp
  have g: "gather_members (form req) m [1..n] [] =
      (map (member_at (form req)) (filter (\<lambda>i. i \<le> m \<or> \<not> blank (form req) i) [1..i - 1]), Some ?msg)"
    using gather_members_break[OF pre assms(9,11), of "[i + 1..n]" "[]"] split by simp
  have mn: "map_of ?e ''min_members'' = Some (VInt m)" "map_of ?e ''max_members'' = Some (VInt n)"
    using assms(5,6) by (simp_all add: map_of_doc_to_json)
  have "team_register (Some eid) st req = team_register_post ?e st req"
    using assms(1-4,7) team_register_found[OF assms(1) event_doc_found find_has_id] by simp
  also have "\<dots> = (register_page ?e (Msg ?msg) (form req) 400, st)"
    using mn g by (simp add: team_register_post_def)
  finally have A: "team_register (Some eid) st req =
           (Template ''team_register.html''
              [(''event'', CDoc ?e), (''error'', CError (Msg ?msg)), (''form'', CForm (form req))] 400, st)"
    by (simp add: register_page_def)
  have B: "gather_members g m [1..n] [] = gather_members (form req) m [1..n] []"
    if eq: "\<forall>j \<in> set [1..i]. \<forall>sfx \<in> set [''name'', ''email'', ''reg_no''].
              member_field g j sfx = member_field (form req) j sfx" for g
  proof -
    have i_split: "[1..i] = [1..i - 1] @ [i]"
      using assms(8) upto_rec2[of 1 i] by simp
    have ok_g: "\<not> required_ok g i" "\<forall>j \<in> set [1..i - 1]. required_ok g j"
      using eq assms(8,11,12) by (auto simp: required_ok_def)
    have "gather_members g m [1..n] [] = gather_members g m ([1..i - 1] @ [i]) []"
      using gather_members_stops(1)[OF assms(9) ok_g, of "[i + 1..n]" "[]"] split by simp
    also have "\<dots> = gather_members (form req) m ([1..i - 1] @ [i]) []"
      using gather_members_cong[of "[1..i]" g "form req" m "[]"] eq i_split by simp
    also have "\<dots> = gather_members (form req) m [1..n] []"
      using gather_members_stops(1)[OF assms(9,11,12), of "[i + 1..n]" "[]"] split by simp
    finally show ?thesis .
  qed
  from A B show ?thesis by blast
qed

text \<open>
  The claim at a submission whose second member has no email: the error names position 2,
  although position 3 is incomplete too.
\<close>

theorem first_missing_member_rejected_witness:
  "fst (team_register (Some ''0123456789abcdefABCDEF01'') example_state incomplete_submission) =
     Template ''team_register.html''
       [(''event'', CDoc (doc_to_json example_event)),
        (''error'', CError (Msg ''Member 2 name and email are required.'')),
        (''form'', CForm (form incomplete_submission))] 400 \<and>
   snd (team_register (Some ''0123456789abcdefABCDEF01'') example_state incomplete_submission) =
     example_state"
proof -
  have h1: "''0123456789abcdefABCDEF01'' \<noteq> []" by simp
  have h2: "ObjectId ''0123456789abcdefABCDEF01'' = Inr ''0123456789abcdefabcdef01''" by code_simp
  have h3: "\<not> db_fault example_state" by code_simp
  have h4: "find (has_id (VOid ''0123456789abcdefabcdef01'')) (events_collection example_state) = Some example_event"
    by code_simp
  have h5: "map_of example_event ''min_members'' = Some (VInt 2)" by code_simp
  have h6: "map_of example_event ''max_members'' = Some (VInt 4)" by code_simp
  have h7: "req_method incomplete_submission = POST" by code_simp
  have h8: "\<not> required_ok (form incomplete_submission) 2" by code_simp
  have h9: "\<forall>j \<in> set [1..2 - 1]. required_ok (form incomplete_submission) j" by code_simp
  have s: "str_int 2 = ''2''" by code_simp
  from first_missing_member_rejected[OF h1 h2 h3 h4 h5 h6 h7 _ _ _ h8 h9] s
  show ?thesis by simp
qed


text \<open>
  The claim at the example: an event with two to four members and a submission that fills
  two positions.
\<close>

theorem members_length_is_min_members_witness:
  "\<exists>d ms. teams_collection (snd (team_register (Some ''0123456789abcdefABCDEF01'') example_state example_submission)) =
             teams_collection example_state @ [d] \<and>
           map_of d ''members'' = Some (VList ms) \<and>
           ms = map (member_at (form example_submission)) [1..2] \<and> int (length ms) = 2"
proof -
  let ?r = "team_register (Some ''0123456789abcdefABCDEF01'') example_state example_submission"
  have h1: "''0123456789abcdefABCDEF01'' \<noteq> []" by simp
  have h2: "ObjectId ''0123456789abcdefABCDEF01'' = Inr ''0123456789abcdefabcdef01''" by code_simp
  have h3: "\<not> db_fault example_state" by code_simp
  have h4: "find (has_id (VOid ''0123456789abcdefabcdef01'')) (events_collection example_state) = Some example_event"
    by code_simp
  have h5: "map_of example_event ''min_members'' = Some (VInt 2)" by code_simp
  have h6: "map_of example_event ''max_members'' = Some (VInt 4)" by code_simp
  have h7: "req_method example_submission = POST" by code_simp
  have h8: "\<forall>i \<in> set [2 + 1..4]. blank (form example_submission) i" by code_simp
  have h9: "?r = (fst ?r, snd ?r)" by simp
  have h10: "teams_collection (snd ?r) \<noteq> teams_collection example_state" by code_simp
  from members_length_is_min_members[OF h1 h2 h3 h4 h5 h6 _ _ h7 h8 h9 h10]
  show ?thesis by simp
qed

text \<open>The claim at the example, whose form submits the team name \<open>Bytes\<close>.\<close>

theorem no_team_name_when_not_required_witness:
  "\<exists>d. teams_collection (snd (team_register (Some ''0123456789abcdefABCDEF01'') example_state example_submission)) =
          teams_collection example_state @ [d] \<and>
        map_of d ''team_name'' = Some VNone"
proof -
  let ?r = "team_register (Some ''0123456789abcdefABCDEF01'') example_state example_submission"
  have h1: "''0123456789abcdefABCDEF01'' \<noteq> []" by simp
  have h2: "ObjectId ''0123456789abcdefABCDEF01'' = Inr ''0123456789abcdefabcdef01''" by code_simp
  have h3: "\<not> db_fault example_state" by code_simp
  have h4: "find (has_id (VOid ''0123456789abcdefabcdef01'')) (events_collection example_state) = Some example_event"
    by code_simp
  have h5: "map_of example_event ''require_team_name'' = Some (VBool False)" by code_simp
  have h7: "req_method example_submission = POST" by code_simp
  have h9: "?r = (fst ?r, snd ?r)" by simp
  have h10: "teams_collection (snd ?r) \<noteq> teams_collection example_state" by code_simp
  from no_team_name_when_not_required[OF h1 h2 h3 h4 h5 h7 h9 h10]
  show ?thesis .
qed

text \<open>The claim at an identifier no event has, and at a malformed one.\<close>

theorem unknown_event_is_404_witness:
  "team_register (Some ''0123456789abcdefABCDEF02'') example_state (example_submission\<lparr>req_method := GET\<rparr>) =
     (Body ''Invalid event'' 404, example_state) \<and>
   team_register (Some ''not-an-id'') example_state (example_submission\<lparr>req_method := GET\<rparr>) =
     (Body ''Invalid event'' 404, example_state)"
proof -
  have h1: "''0123456789abcdefABCDEF02'' \<noteq> []" by simp
  have o: "ObjectId ''0123456789abcdefABCDEF02'' = Inr ''0123456789abcdefabcdef02''" by code_simp
  have "\<forall>d \<in> set (events_collection example_state). \<not> has_id (VOid ''0123456789abcdefabcdef02'') d"
    by code_simp
  with o have h2: "\<forall>oid. ObjectId ''0123456789abcdefABCDEF02'' = Inr oid \<longrightarrow>
      (\<forall>d \<in> set (events_collection example_state). \<not> has_id (VOid oid) d)"
    by simp
  have k1: "''not-an-id'' \<noteq> []" by simp
  have "ObjectId ''not-an-id'' = Inl InvalidId" by code_simp
  then have k2: "\<forall>oid. ObjectId ''not-an-id'' = Inr oid \<longrightarrow>
      (\<forall>d \<in> set (events_collection example_state). \<not> has_id (VOid oid) d)"
    by simp
  from unknown_event_is_404[OF h1 h2] unknown_event_is_404[OF k1 k2]
  show ?thesis by simp
qed

section \<open>Admin session guard and event limits\<close>

text \<open>
  Claim C9.  In a session without the admin flag, whatever view \<open>admin_required\<close> wraps is
  not run: the answer is the redirection to the login page and the state is unchanged,
  so the view has read and written nothing.  This holds for any wrapped view \<open>f\<close>, hence
  for every route the source decorates, and is stated again for the guarded routes
  modelled here.  \<open>logout\<close> leaves a session without the flag, whether it was set or not.
\<close>

theorem admin_guard_redirects_and_logout_clears:
  "(session_admin st = None \<longrightarrow>
      admin_required f st req = (Redirect ''admin_login'', st) \<and>
      admin_dashboard st req = (Redirect ''admin_login'', st) \<and>
      admin_events st req = (Redirect ''admin_login'', st) \<and>
      admin_edit_event event_id st req = (Redirect ''admin_login'', st) \<and>
      admin_edit_team team_id st req = (Redirect ''admin_login'', st) \<and>
      export_excel csv_line st req = (Redirect ''admin_login'', st) \<and>
      admin_export_teams csv_line st req = (Redirect ''admin_login'', st) \<and>
      admin_stats st req = (Redirect ''admin_login'', st)) \<and>
   session_admin (snd (logout st req)) = None"
  by (simp add: admin_required_def admin_dashboard_def admin_events_def admin_edit_event_def
        admin_edit_team_def export_excel_def admin_export_teams_def admin_stats_def logout_def)

text \<open>
  The claim at the example: without a login the event form creates nothing; and logging
  out of an admin session clears the flag.
\<close>

theorem admin_guard_redirects_and_logout_clears_witness:
  "admin_events example_state example_event_form = (Redirect ''admin_login'', example_state) \<and>
   session_admin (snd (logout example_admin_state example_event_form)) = None"
proof -
  have h: "session_admin example_state = None" by code_simp
  from admin_guard_redirects_and_logout_clears[of example_state admin_events_view example_event_form]
       admin_guard_redirects_and_logout_clears[of example_admin_state admin_events_view example_event_form] h
  show ?thesis by simp
qed


lemma replace_first_new: "d \<in> set (replace_first P y xs) \<Longrightarrow> d \<notin> set xs \<Longrightarrow> d = y"
  by (induction xs) (auto split: if_splits)

lemma map_of_set_fields:
  "map_of (set_fields upd d) k = (case map_of (rev upd) k of None \<Rightarrow> map_of d k | Some v \<Rightarrow> Some v)"
  unfolding set_fields_def
proof (induction upd arbitrary: d)
  case Nil
  then show ?case by simp
next
  case (Cons kv upd)
  show ?case
    by (simp add: Cons update_conv' map_add_def split: option.splits)
qed




lemma admin_required_pass: "session_admin st \<noteq> None \<Longrightarrow> admin_required f st req = f st req"
  by (cases "session_admin st") (simp_all add: admin_required_def)



section \<open>Export, statistics and the admin's team edit\<close>

lemma set_insert_desc: "set (insert_desc d xs) = insert d (set xs)"
  by (induction xs) auto

lemma set_sort_created_desc: "set (sort_created_desc xs) = set xs"
  unfolding sort_created_desc_def by (induction xs) (simp_all add: set_insert_desc)

lemma sort_created_desc_Nil: "sort_created_desc xs = [] \<longleftrightarrow> xs = []"
  using set_sort_created_desc[of xs] by (metis set_empty)

text \<open>
  Claim C6.  What the CSV export does: for an empty collection it sends an empty file;
  for any other collection the first \<open>writer.writerow\<close>, the header row, hands a \<open>str\<close> to
  the \<open>BytesIO\<close> object, which raises \<open>TypeError\<close>, so the request ends with a server error
  and no file.  There is then no CSV text to parse back into the key/value pairs of the
  documents.
\<close>

theorem csv_export_raises_type_error:
  assumes "\<not> db_fault st"
  shows "export_teams csv_line ''csv'' st =
           (if teams_collection st = [] then SendFile ''teams.csv'' [] else ServerError TypeError, st)"
proof (cases "teams_collection st = []")
  case True
  with assms show ?thesis
    by (simp add: export_teams_def find_sorted_def sort_created_desc_def)
next
  case False
  then have "sort_created_desc (teams_collection st) \<noteq> []"
    by (simp add: sort_created_desc_Nil)
  then obtain t ts where "sort_created_desc (teams_collection st) = t # ts"
    by (cases "sort_created_desc (teams_collection st)") auto
  with assms False show ?thesis
    by (simp add: export_teams_def find_sorted_def writerow_def BytesIO_write_def)
qed

text \<open>The export of a collection of one registration, for every way to format a row.\<close>

theorem csv_export_raises_type_error_witness:
  "\<forall>csv_line. export_teams csv_line ''csv'' example_team_state =
      (ServerError TypeError, example_team_state)"
proof -
  have h: "\<not> db_fault example_team_state" by code_simp
  have n: "teams_collection example_team_state \<noteq> []" by code_simp
  from csv_export_raises_type_error[OF h] n show ?thesis by simp
qed

text \<open>
  Claim C7.  A registration submitted at 23:59:59.999999 is stored with that time as
  \<open>created_at\<close>.  The statistics computed at the same instant, hence on the same UTC day,
  count it in the total but not in today's count: the upper bound of the query is that
  very instant, and it is exclusive.
\<close>

theorem stats_miss_last_microsecond:
  "snd (team_register (Some ''0123456789abcdefabcdef01'') example_state late_submission) =
     example_state\<lparr>teams_collection := [example_team]\<rparr> \<and>
   compute_stats (example_state\<lparr>teams_collection := [example_team]\<rparr>) late_submission = Inr (1, 0)"
  by code_simp


lemma edit_members_blank: "\<forall>j \<ge> i. blank f j \<Longrightarrow> edit_members f i acc = acc"
proof (induction f i acc rule: edit_members.induct)
  case (1 f i members)
  show ?case
  proof (cases "map_of f (member_key i ''name'') = None")
    case True
    then show ?thesis by (subst edit_members.simps) simp
  next
    case False
    have b: "blank f i" using "1.prems" by simp
    have "\<forall>j \<ge> i + 1. blank f j" using "1.prems" by simp
    with 1 False b have "edit_members f (i + 1) members = members"
      by (simp add: blank_def)
    with False b show ?thesis
      by (subst edit_members.simps) (simp add: blank_def Let_def)
  qed
qed

lemma edit_members_extends: "\<exists>ms. edit_members f i acc = acc @ ms"
proof (induction f i acc rule: edit_members.induct)
  case (1 f i members)
  show ?case
  proof (cases "map_of f (member_key i ''name'') = None")
    case True
    then show ?thesis by (subst edit_members.simps) simp
  next
    case False
    define acc' where "acc' =
      (if member_field f i ''name'' \<noteq> [] \<or> member_field f i ''email'' \<noteq> [] \<or>
          member_field f i ''reg_no'' \<noteq> []
       then members @ [member_dict (member_field f i ''name'') (member_field f i ''email'')
                         (member_field f i ''reg_no'')]
       else members)"
    from False obtain y where y: "map_of f (member_key i ''name'') = Some y" by auto
    have step: "edit_members f i members = edit_members f (i + 1) acc'"
      by (subst edit_members.simps) (simp add: Let_def acc'_def y)
    from 1[OF False refl refl refl] obtain ms where "edit_members f (i + 1) acc' = acc' @ ms"
      unfolding acc'_def by blast
    moreover obtain m0 where "acc' = members @ m0"
      unfolding acc'_def by (cases "member_field f i ''name'' \<noteq> [] \<or> member_field f i ''email'' \<noteq> [] \<or>
          member_field f i ''reg_no'' \<noteq> []") auto
    ultimately show ?thesis using step by simp
  qed
qed

lemma find_replace_first:
  "find P xs = Some x \<Longrightarrow> P y \<Longrightarrow> find P (replace_first P y xs) = Some y"
  by (induction xs) (auto split: if_splits)

lemma update_one_found:
  assumes "\<not> db_fault st" and "find (has_id oid) coll = Some d"
  shows "update_one st [] coll oid upd = Inr (1, replace_first (has_id oid) (set_fields upd d) coll)"
  using assms by (simp add: update_one_def clashes_def)

lemma has_id_set_fields:
  "has_id oid d \<Longrightarrow> map_of (rev upd) ''_id'' = None \<Longrightarrow> has_id oid (set_fields upd d)"
  by (simp add: has_id_def map_of_set_fields)

text \<open>
  Claim C10.  An admin's \<open>POST\<close> to the edit route of a stored team writes the team name,
  the four team-lead fields and \<open>updated_at\<close> from the form.  When every member position of
  the form is blank (name, email and registration number empty after \<open>strip\<close>, or absent),
  \<open>members\<close> of the stored team stays what it was.  No edit empties it: if \<open>members\<close> is the
  empty list afterwards, it was the empty list before.
\<close>

theorem admin_edit_keeps_members_when_none_given:
  assumes "session_admin st \<noteq> None" and "req_method req = POST"
    and "ObjectId team_id = Inr oid" and "\<not> db_fault st"
    and "find (has_id (VOid oid)) (teams_collection st) = Some team"
  shows "\<exists>team'. find (has_id (VOid oid)) (teams_collection (snd (admin_edit_team team_id st req))) = Some team' \<and>
           map_of team' ''team_name'' = Some (VStr (strip (form_get (form req) ''team_name'' []))) \<and>
           map_of team' ''team_lead_name'' = Some (VStr (strip (form_get (form req) ''team_lead_name'' []))) \<and>
           map_of team' ''team_lead_email'' = Some (VStr (strip (form_get (form req) ''team_lead_email'' []))) \<and>
           map_of team' ''team_lead_phone'' = Some (VStr (strip (form_get (form req) ''team_lead_phone'' []))) \<and>
           map_of team' ''team_lead_reg_no'' = Some (VStr (strip (form_get (form req) ''team_lead_reg_no'' []))) \<and>
           map_of team' ''updated_at'' = Some (VDate (utcnow req)) \<and>
           ((\<forall>i \<ge> 1. blank (form req) i) \<longrightarrow> map_of team' ''members'' = map_of team ''members'') \<and>
           (map_of team' ''members'' = Some (VList []) \<longrightarrow> map_of team ''members'' = Some (VList []))"
proof -
  define data where "data =
     [(''team_name'', VStr (strip (form_get (form req) ''team_name'' []))),
      (''team_lead_name'', VStr (strip (form_get (form req) ''team_lead_name'' []))),
      (''team_lead_email'', VStr (strip (form_get (form req) ''team_lead_email'' []))),
      (''team_lead_phone'', VStr (strip (form_get (form req) ''team_lead_phone'' []))),
      (''team_lead_reg_no'', VStr (strip (form_get (form req) ''team_lead_reg_no'' []))),
      (''updated_at'', VDate (utcnow req))]"
  define members where "members = edit_members (form req) 1 []"
  define upd where "upd = (if members \<noteq> [] then data @ [(''members'', VList members)] else data)"
  define team' where "team' = set_fields upd team"
  have no_id: "map_of (rev upd) ''_id'' = None"
    by (simp add: upd_def data_def)
  have id: "has_id (VOid oid) team"
    using assms(5) by (auto simp: find_Some_iff)
  have id': "has_id (VOid oid) team'"
    unfolding team'_def by (rule has_id_set_fields[OF id no_id])
  have view: "admin_edit_team_view team_id st req =
      (case update_one st [] (teams_collection st) (VOid oid) upd of
         Inr (matched_count, coll) \<Rightarrow>
           (if matched_count = 0 then
              (Redirect ''admin_teams'', flash (Msg ''Team not found.'') ''error'' st)
            else
              (Redirect ''admin_teams'',
               flash (Msg ''Team updated successfully.'') ''success'' (st\<lparr>teams_collection := coll\<rparr>)))
       | Inl e \<Rightarrow>
           (Redirect ''admin_teams'', flash (MsgExc ''Error updating team: '' e) ''error'' st))"
    using assms(2,3)
    by (simp add: admin_edit_team_view_def Let_def upd_def members_def data_def)
  have "admin_edit_team team_id st req = admin_edit_team_view team_id st req"
    using assms(1) by (simp add: admin_edit_team_def admin_required_pass)
  also have "\<dots> = (Redirect ''admin_teams'',
       flash (Msg ''Team updated successfully.'') ''success''
         (st\<lparr>teams_collection := replace_first (has_id (VOid oid)) team' (teams_collection st)\<rparr>))"
    unfolding view update_one_found[OF assms(4,5)] team'_def by simp
  finally have "teams_collection (snd (admin_edit_team team_id st req)) =
      replace_first (has_id (VOid oid)) team' (teams_collection st)"
    by (simp add: flash_def)
  with find_replace_first[OF assms(5) id']
  have found: "find (has_id (VOid oid)) (teams_collection (snd (admin_edit_team team_id st req))) = Some team'"
    by simp
  have rev_data: "map_of (rev upd) k = map_of (rev data) k" if "k \<noteq> ''members''" for k
    using that by (simp add: upd_def)
  have fields:
    "map_of team' ''team_name'' = Some (VStr (strip (form_get (form req) ''team_name'' [])))"
    "map_of team' ''team_lead_name'' = Some (VStr (strip (form_get (form req) ''team_lead_name'' [])))"
    "map_of team' ''team_lead_email'' = Some (VStr (strip (form_get (form req) ''team_lead_email'' [])))"
    "map_of team' ''team_lead_phone'' = Some (VStr (strip (form_get (form req) ''team_lead_phone'' [])))"
    "map_of team' ''team_lead_reg_no'' = Some (VStr (strip (form_get (form req) ''team_lead_reg_no'' [])))"
    "map_of team' ''updated_at'' = Some (VDate (utcnow req))"
    unfolding team'_def map_of_set_fields by (simp_all add: rev_data) (simp_all add: data_def)
  have no_members: "map_of (rev data) ''members'' = None"
    by (simp add: data_def)
  have kept: "map_of team' ''members'' = map_of team ''members''" if "\<forall>i \<ge> 1. blank (form req) i"
  proof -
    have "members = []" unfolding members_def using that by (rule edit_members_blank)
    then show ?thesis by (simp add: team'_def map_of_set_fields upd_def no_members)
  qed
  have not_cleared: "map_of team ''members'' = Some (VList [])" if "map_of team' ''members'' = Some (VList [])"
  proof (cases "members = []")
    case True
    with that show ?thesis by (simp add: team'_def map_of_set_fields upd_def no_members)
  next
    case False
    then have "map_of team' ''members'' = Some (VList members)"
      by (simp add: team'_def map_of_set_fields upd_def)
    with that False show ?thesis by simp
  qed
  from found fields kept not_cleared show ?thesis by blast
qed

lemma example_team_edit_blank: "\<forall>i \<ge> 1. blank (form example_team_edit) i"
proof -
  have s: "strip '' '' = []" by code_simp
  have f: "form example_team_edit =
      [(''team_name'', ''Bits''), (''team_lead_name'', ''Z''), (''member_1_name'', '' '')]"
    by (simp add: example_team_edit_def)
  have e: "strip [] = []" by (simp add: strip_def)
  show ?thesis
    by (auto simp: blank_def member_field_def form_get_def member_key_def f s e)
qed

text \<open>
  The claim at the example: the edit renames the team and keeps its two members.
\<close>

theorem admin_edit_keeps_members_when_none_given_witness:
  "\<exists>team'. find (has_id (VOid ''aaaaaaaaaaaaaaaaaaaaaaaa''))
              (teams_collection (snd (admin_edit_team ''aaaaaaaaaaaaaaaaaaaaaaaa'' example_team_state example_team_edit))) =
            Some team' \<and>
          map_of team' ''team_name'' = Some (VStr ''Bits'') \<and>
          map_of team' ''members'' =
            Some (VList [member_dict ''B'' ''b@x.com'' [], member_dict ''C'' ''c@x.com'' []])"
proof -
  have h1: "session_admin example_team_state \<noteq> None" by code_simp
  have h2: "req_method example_team_edit = POST" by code_simp
  have h3: "ObjectId ''aaaaaaaaaaaaaaaaaaaaaaaa'' = Inr ''aaaaaaaaaaaaaaaaaaaaaaaa''" by code_simp
  have h4: "\<not> db_fault example_team_state" by code_simp
  have h5: "find (has_id (VOid ''aaaaaaaaaaaaaaaaaaaaaaaa'')) (teams_collection example_team_state) = Some example_team"
    by code_simp
  have m: "map_of example_team ''members'' =
      Some (VList [member_dict ''B'' ''b@x.com'' [], member_dict ''C'' ''c@x.com'' []])"
    by code_simp
  have n: "strip (form_get (form example_team_edit) ''team_name'' []) = ''Bits''" by code_simp
  from admin_edit_keeps_members_when_none_given[OF h1 h2 h3 h4 h5] example_team_edit_blank m n
  show ?thesis by auto
qed

section \<open>Registration and the active flag\<close>

lemma without_event_register_page:
  "without_event (register_page e2 err f code) = without_event (register_page e1 err f code)"
  by (simp add: register_page_def)

lemma store_registration_cong:
  assumes tc: "teams_collection st2 = teams_collection st1" and df: "db_fault st2 = db_fault st1"
  shows "without_event (fst (store_registration e2 rd st2 req)) =
           without_event (fst (store_registration e1 rd st1 req)) \<and>
         teams_collection (snd (store_registration e2 rd st2 req)) =
           teams_collection (snd (store_registration e1 rd st1 req))"
proof -
  have ins: "insert_one st2 [] (teams_collection st2) rd (new_oid req) =
             insert_one st1 [] (teams_collection st1) rd (new_oid req)"
    by (simp add: insert_one_def tc df)
  show ?thesis
  proof (cases "insert_one st1 [] (teams_collection st1) rd (new_oid req)")
    case (Inl e)
    with ins tc show ?thesis
      by (simp add: store_registration_def without_event_register_page[of e2 _ _ _ e1])
  next
    case (Inr p)
    obtain v coll where p: "p = (v, coll)" by (cases p)
    have fo: "find_one (st2\<lparr>teams_collection := coll\<rparr>) coll v =
              find_one (st1\<lparr>teams_collection := coll\<rparr>) coll v"
      by (simp add: find_one_def df)
    show ?thesis
    proof (cases "find_one (st1\<lparr>teams_collection := coll\<rparr>) coll v")
      case (Inl e)
      with Inr p ins fo show ?thesis
        by (simp add: store_registration_def Let_def without_event_register_page[of e2 _ _ _ e1])
    next
      case inserted: (Inr r)
      with Inr p ins fo show ?thesis
        by (simp add: store_registration_def Let_def)
    qed
  qed
qed

lemma team_register_post_cong:
  assumes rt: "map_of e2 ''require_team_name'' = map_of e1 ''require_team_name''"
    and mn: "map_of e2 ''min_members'' = map_of e1 ''min_members''"
    and mx: "map_of e2 ''max_members'' = map_of e1 ''max_members''"
    and id: "map_of e2 ''_id'' = map_of e1 ''_id''"
    and nm: "map_of e2 ''event_name'' = map_of e1 ''event_name''"
    and tc: "teams_collection st2 = teams_collection st1" and df: "db_fault st2 = db_fault st1"
  shows "without_event (fst (team_register_post e2 st2 req)) =
           without_event (fst (team_register_post e1 st1 req)) \<and>
         teams_collection (snd (team_register_post e2 st2 req)) =
           teams_collection (snd (team_register_post e1 st1 req))"
proof (cases "int_of_bson (case map_of e1 ''min_members'' of None \<Rightarrow> VInt 1 | Some v \<Rightarrow> v)")
  case (Inl e)
  then show ?thesis by (simp add: team_register_post_def mn tc)
next
  case m: (Inr m)
  show ?thesis
  proof (cases "int_of_bson (case map_of e1 ''max_members'' of None \<Rightarrow> VInt 1 | Some v \<Rightarrow> v)")
    case (Inl e)
    with m show ?thesis by (simp add: team_register_post_def mn mx tc)
  next
    case n: (Inr n)
    obtain ms miss where g: "gather_members (form req) m [1..n] [] = (ms, miss)"
      by (cases "gather_members (form req) m [1..n] []")
    show ?thesis
    proof (cases miss)
      case (Some msg)
      with m n g show ?thesis
        by (simp add: team_register_post_def mn mx tc without_event_register_page[of e2 _ _ _ e1])
    next
      case None
      note sr = store_registration_cong[OF tc df, of e2 _ req e1]
      show ?thesis
      proof (cases "map_of e1 ''_id''")
        case no_id: None
        with m n g None show ?thesis
          by (simp add: team_register_post_def mn mx rt id tc Let_def
                without_event_register_page[of e2 _ _ _ e1])
      next
        case some_id: (Some event_id)
        show ?thesis
        proof (cases "map_of e1 ''event_name''")
          case no_name: None
          with m n g None some_id show ?thesis
            by (simp add: team_register_post_def mn mx rt id nm tc Let_def
                  without_event_register_page[of e2 _ _ _ e1])
        next
          case some_name: (Some event_name)
          with m n g None some_id show ?thesis
            by (simp add: team_register_post_def mn mx rt id nm tc Let_def sr
                  without_event_register_page[of e2 _ _ _ e1])
        qed
      qed
    qed
  qed
qed


lemma has_id_flagged: "has_id v (AList.update ''active'' a d) = has_id v d"
  by (simp add: has_id_def update_conv')

lemma find_flagged:
  "find (has_id v) (map (AList.update ''active'' a) coll) =
     map_option (AList.update ''active'' a) (find (has_id v) coll)"
  by (induction coll) (simp_all add: has_id_flagged)

lemma map_of_json_flagged:
  "k \<noteq> ''active'' \<Longrightarrow>
   map_of (doc_to_json (AList.update ''active'' a d)) k = map_of (doc_to_json d) k"
  by (simp add: map_of_doc_to_json update_conv')

lemma choose_event_lists_active:
  assumes "\<not> db_fault st"
  shows "\<exists>evs. choose_event st req = (Template ''choose_event.html'' [(''events'', CDocs evs)] 200, st) \<and>
           set evs = doc_to_json ` {d \<in> set (events_collection st). map_of d ''active'' = Some (VBool True)}"
  using assms
  by (auto simp: choose_event_def find_sorted_def set_sort_created_desc)

text \<open>
  Claim C5.  The registration handler finds the event by its identifier alone: for an
  event of the collection, whatever its \<open>active\<close> field, the request is served (the form
  on \<open>GET\<close>, the submission rules on \<open>POST\<close>) and not answered with 404.  Setting the
  \<open>active\<close> field of the events to any value \<open>a\<close> changes neither the registrations stored
  by the request nor the response, apart from the event document shown in the page.  The
  chooser, in contrast, lists exactly the events whose \<open>active\<close> field is \<open>True\<close>.
\<close>

theorem registration_ignores_active_flag:
  assumes "eid \<noteq> []" and "ObjectId eid = Inr oid" and "\<not> db_fault st"
    and "find (has_id (VOid oid)) (events_collection st) = Some ev"
  shows "team_register (Some eid) st req =
           (if req_method req = POST then team_register_post (doc_to_json ev) st req
            else (Template ''team_register.html'' [(''event'', CDoc (doc_to_json ev))] 200, st)) \<and>
         without_event (fst (team_register (Some eid) (flag_events a st) req)) =
           without_event (fst (team_register (Some eid) st req)) \<and>
         teams_collection (snd (team_register (Some eid) (flag_events a st) req)) =
           teams_collection (snd (team_register (Some eid) st req)) \<and>
         (\<exists>evs. choose_event st req =
                  (Template ''choose_event.html'' [(''events'', CDocs evs)] 200, st) \<and>
                set evs = doc_to_json `
                  {d \<in> set (events_collection st). map_of d ''active'' = Some (VBool True)})"
proof -
  let ?ev' = "AList.update ''active'' a ev"
  let ?st' = "flag_events a st"
  have ne: "ev \<noteq> []" using assms(4) by (rule find_has_id)
  have ne': "?ev' \<noteq> []" by (cases ev) auto
  have A: "team_register (Some eid) st req =
           (if req_method req = POST then team_register_post (doc_to_json ev) st req
            else (Template ''team_register.html'' [(''event'', CDoc (doc_to_json ev))] 200, st))"
    by (rule team_register_found[OF assms(1) event_doc_found[OF assms(2,3,4)] ne])
  have fault': "\<not> db_fault ?st'" using assms(3) by (simp add: flag_events_def)
  have found': "find (has_id (VOid oid)) (events_collection ?st') = Some ?ev'"
    using assms(4) by (simp add: flag_events_def find_flagged)
  have A': "team_register (Some eid) ?st' req =
           (if req_method req = POST then team_register_post (doc_to_json ?ev') ?st' req
            else (Template ''team_register.html'' [(''event'', CDoc (doc_to_json ?ev'))] 200, ?st'))"
    by (rule team_register_found[OF assms(1) event_doc_found[OF assms(2) fault' found'] ne'])
  have same: "teams_collection ?st' = teams_collection st" "db_fault ?st' = db_fault st"
    by (simp_all add: flag_events_def)
  have post: "without_event (fst (team_register_post (doc_to_json ?ev') ?st' req)) =
                without_event (fst (team_register_post (doc_to_json ev) st req)) \<and>
              teams_collection (snd (team_register_post (doc_to_json ?ev') ?st' req)) =
                teams_collection (snd (team_register_post (doc_to_json ev) st req))"
    by (rule team_register_post_cong) (simp_all add: map_of_json_flagged same)
  have B: "without_event (fst (team_register (Some eid) ?st' req)) =
             without_event (fst (team_register (Some eid) st req))"
    unfolding A A' using post by simp
  have C: "teams_collection (snd (team_register (Some eid) ?st' req)) =
             teams_collection (snd (team_register (Some eid) st req))"
    unfolding A A' using post same by simp
  from A B C choose_event_lists_active[OF assms(3)] show ?thesis by blast
qed

text \<open>
  The claim at the example, whose only event is inactive: the chooser shows no event,
  the submission is stored, and the same is stored when the event is active.
\<close>

theorem registration_ignores_active_flag_witness:
  "map_of example_event ''active'' = Some (VBool False) \<and>
   teams_collection
     (snd (team_register (Some ''0123456789abcdefABCDEF01'') example_state example_submission)) =
   teams_collection
     (snd (team_register (Some ''0123456789abcdefABCDEF01'') (flag_events (VBool True) example_state)
        example_submission)) \<and>
   length (teams_collection
     (snd (team_register (Some ''0123456789abcdefABCDEF01'') example_state example_submission))) = 1 \<and>
   fst (choose_event example_state example_submission) =
     Template ''choose_event.html'' [(''events'', CDocs [])] 200"
proof -
  have h1: "''0123456789abcdefABCDEF01'' \<noteq> []" by simp
  have h2: "ObjectId ''0123456789abcdefABCDEF01'' = Inr ''0123456789abcdefabcdef01''" by code_simp
  have h3: "\<not> db_fault example_state" by code_simp
  have h4: "find (has_id (VOid ''0123456789abcdefabcdef01'')) (events_collection example_state) = Some example_event"
    by code_simp
  have a: "map_of example_event ''active'' = Some (VBool False)" by code_simp
  have n: "length (teams_collection
     (snd (team_register (Some ''0123456789abcdefABCDEF01'') example_state example_submission))) = 1"
    by code_simp
  have c: "fst (choose_event example_state example_submission) =
     Template ''choose_event.html'' [(''events'', CDocs [])] 200"
    by code_simp
  from registration_ignores_active_flag[OF h1 h2 h3 h4, of example_submission "VBool True"] a n c
  show ?thesis by simp
qed

end
